theory Spec2Isabelle
  imports Main "HOL-Library.Word"
begin

section \<open>jsolar: VBus frames from a serial line, served over HTTP\<close>

text \<open>
  A shallow embedding of \<^verbatim>\<open>jsolar.py\<close>. The program reads frames delimited by the byte
  \<^verbatim>\<open>0xAA\<close>, decodes the configured sensors of each frame with the pyvbus library and keeps
  the latest decoded frame in the global \<^verbatim>\<open>parsed_datagram\<close>, which two HTTP handlers render.

  The libraries the program calls are not part of it and are taken as parameters:
  the pyvbus packet class (its constructor and its four getters), \<^verbatim>\<open>str\<close> on the values the
  getters return, \<^verbatim>\<open>json.dumps\<close>, and the clock read by \<^verbatim>\<open>datetime.now()\<close>.
  A raised exception is the left injection of a sum type.
\<close>

subsection \<open>Data\<close>

type_synonym byte = "8 word"

datatype error =
    IncompleteReadError
  | IndexError
  | KeyError string
  | VBUSPacketException
  | HTTPServiceUnavailable

text \<open>
  \<^verbatim>\<open>parse_config\<close> calls \<^verbatim>\<open>config.validate(validator, preserve_errors=True)\<close> and does not
  look at what it returns. A value that passes its check is replaced by the converted
  value; a value that fails it stays in the section as the file gave it. So the value under
  \<^verbatim>\<open>enabled\<close> is the boolean of a passed check (or of the default), or else the string or
  the list of strings that the file holds. The program tests it with \<^verbatim>\<open>not\<close>: a boolean
  counts as itself, a string or a list as true when it is not empty.
\<close>

datatype enabled_value = PyBool bool | PyStr string | PyList "string list"


text \<open>
  One sub-section of \<^verbatim>\<open>[sensors]\<close> as the rest of the program reads it: integers for
  offset, size and position, strings for description, type and metrics, and the value under
  \<^verbatim>\<open>enabled\<close> as above. The factor is a Python float, which the program only hands on
  to pyvbus; its type is left open.
\<close>

record 'f sensor =
  sensor_description :: string
  sensor_offset :: int
  sensor_size :: int
  sensor_factor :: 'f
  sensor_position :: int
  sensor_enabled :: enabled_value
  sensor_type :: string
  sensor_metrics :: string

text \<open>
  A Python dict keeps its keys in insertion order and holds each key once: an association
  list whose keys are distinct. This is also the order in which a ConfigObj section iterates
  its sub-sections.
\<close>

type_synonym ('k, 'a) dict = "('k \<times> 'a) list"

definition dict_ok :: "('k, 'a) dict \<Rightarrow> bool" where
  "dict_ok d = distinct (map fst d)"

text \<open>\<^verbatim>\<open>d[k]\<close>: the value, or KeyError.\<close>

definition getitem :: "(string, 'a) dict \<Rightarrow> string \<Rightarrow> error + 'a" where
  "getitem d k = (case map_of d k of None \<Rightarrow> Inl (KeyError k) | Some v \<Rightarrow> Inr v)"

text \<open>\<^verbatim>\<open>d[k] = v\<close>: an existing key keeps its place, a new key goes to the end.\<close>

fun setitem :: "'k \<Rightarrow> 'a \<Rightarrow> ('k, 'a) dict \<Rightarrow> ('k, 'a) dict" where
  "setitem k v [] = [(k, v)]"
| "setitem k v (p # ps) = (if fst p = k then (k, v) # ps else p # setitem k v ps)"


record 'f config =
  device_name :: string
  sensors :: "(string, 'f sensor) dict"

text \<open>
  The values of \<^verbatim>\<open>_parsed_datagram\<close>: the two strings the program writes itself, and what the
  pyvbus getters return.
\<close>

datatype 'v datum = Str string | Val 'v

type_synonym 'v reading = "(string, 'v datum) dict"

text \<open>The pyvbus calls of the program, each of which may raise.\<close>

record ('p, 'v, 'f) pyvbus =
  VBUSPacket :: "byte list \<Rightarrow> error + 'p"
  GetRawValue :: "'p \<Rightarrow> int \<Rightarrow> int \<Rightarrow> error + 'v"
  GetTemperatureValue :: "'p \<Rightarrow> int \<Rightarrow> int \<Rightarrow> 'f \<Rightarrow> error + 'v"
  GetBitValue :: "'p \<Rightarrow> int \<Rightarrow> int \<Rightarrow> error + 'v"
  GetTimeValue :: "'p \<Rightarrow> int \<Rightarrow> int \<Rightarrow> error + 'v"

subsection \<open>parse\_config: dropping the disabled sensors\<close>



subsection \<open>ParseVbusPacket: the frame decoder\<close>

text \<open>The dispatch on the sensor type, in the order of the \<^verbatim>\<open>if\<close>/\<open>elif\<close> chain.\<close>

definition sensor_value ::
  "('p, 'v, 'f) pyvbus \<Rightarrow> 'p \<Rightarrow> 'f sensor \<Rightarrow> error + 'v" where
  "sensor_value vbus vbus_packet s =
     (if sensor_type s = ''raw'' then
        GetRawValue vbus vbus_packet (sensor_offset s) (sensor_size s)
      else if sensor_type s = ''temperature'' then
        GetTemperatureValue vbus vbus_packet (sensor_offset s) (sensor_size s) (sensor_factor s)
      else if sensor_type s = ''bit'' then
        GetBitValue vbus vbus_packet (sensor_offset s) (sensor_position s)
      else if sensor_type s = ''time'' then
        GetTimeValue vbus vbus_packet (sensor_offset s) (sensor_size s)
      else
        GetRawValue vbus vbus_packet (sensor_offset s) (sensor_size s))"

text \<open>The loop over \<^verbatim>\<open>config['sensors']\<close>; the first exception ends it.\<close>

fun sensor_loop ::
  "('p, 'v, 'f) pyvbus \<Rightarrow> (string, 'f sensor) dict \<Rightarrow> 'p \<Rightarrow> string list \<Rightarrow>
   'v reading \<Rightarrow> error + 'v reading" where
  "sensor_loop vbus section vbus_packet [] parsed = Inr parsed"
| "sensor_loop vbus section vbus_packet (sensor # rest) parsed =
     (case getitem section sensor of
        Inl e \<Rightarrow> Inl e
      | Inr s \<Rightarrow>
          (case sensor_value vbus vbus_packet s of
             Inl e \<Rightarrow> Inl e
           | Inr v \<Rightarrow> sensor_loop vbus section vbus_packet rest (setitem sensor (Val v) parsed)))"

text \<open>
  \<^verbatim>\<open>ParseVbusPacket(buffer).get_parse_result()\<close>, with the ISO string of \<^verbatim>\<open>datetime.now()\<close>
  as the argument \<open>now\<close>.
\<close>

definition ParseVbusPacket ::
  "('p, 'v, 'f) pyvbus \<Rightarrow> 'f config \<Rightarrow> string \<Rightarrow> byte list \<Rightarrow> error + 'v reading" where
  "ParseVbusPacket vbus cfg now buffer =
     (case VBUSPacket vbus buffer of
        Inl e \<Rightarrow> Inl e
      | Inr vbus_packet \<Rightarrow>
          sensor_loop vbus (sensors cfg) vbus_packet (map fst (sensors cfg))
            (setitem ''timestamp'' (Str now) [(''device'', Str (device_name cfg))]))"

subsection \<open>data\_received: the frame reader\<close>

text \<open>
  The serial line is the list of the bytes still to come. \<^verbatim>\<open>readuntil\<close> returns the bytes
  up to and including the first separator, and raises when the line ends before one. Any
  other failure of the read ends the loop of \<^verbatim>\<open>data_received\<close> in the same way, by an
  exception that nothing catches.
\<close>

fun readuntil :: "byte \<Rightarrow> byte list \<Rightarrow> error + (byte list \<times> byte list)" where
  "readuntil sep [] = Inl IncompleteReadError"
| "readuntil sep (b # bs) =
     (if b = sep then Inr ([b], bs)
      else (case readuntil sep bs of
              Inl e \<Rightarrow> Inl e
            | Inr (chunk, rest) \<Rightarrow> Inr (b # chunk, rest)))"

text \<open>\<^verbatim>\<open>buffer[i]\<close> on a bytearray, for an index that is not negative.\<close>

definition byte_at :: "byte list \<Rightarrow> nat \<Rightarrow> error + byte" where
  "byte_at buffer i = (if i < length buffer then Inr (buffer ! i) else Inl IndexError)"

text \<open>
  \<^verbatim>\<open>
  buffer = bytearray(b'\xaa')
  buffer.extend(await r.readuntil(b'\xaa'))
  buffer = buffer[0:len(buffer)-1]
  \<close>
\<close>

definition frame_buffer :: "byte list \<Rightarrow> byte list" where
  "frame_buffer bytes_read =
     (let buffer = [0xAA] @ bytes_read in take (length buffer - 1) buffer)"

text \<open>
  The global \<^verbatim>\<open>parsed_datagram\<close>, with two observers that the program does not have: the
  buffers handed to the decoder so far, and the number of assignments to the global.
\<close>

record 'v state =
  parsed_datagram :: "'v reading option"
  decoder_calls :: "byte list list"
  store_writes :: nat

text \<open>
  \<^verbatim>\<open>
  if (len(buffer) >= 5 and buffer[5] == 0x10):
      parsed_datagram = ParseVbusPacket(buffer).get_parse_result()
  \<close>
  The result is the exception raised, if any, and the state reached. The n-th call of the
  decoder reads the clock as \<open>clock n\<close>.
\<close>

definition process_buffer ::
  "('p, 'v, 'f) pyvbus \<Rightarrow> 'f config \<Rightarrow> (nat \<Rightarrow> string) \<Rightarrow> 'v state \<Rightarrow> byte list \<Rightarrow>
   error option \<times> 'v state" where
  "process_buffer vbus cfg clock st buffer =
     (if 5 \<le> length buffer then
        (case byte_at buffer 5 of
           Inl e \<Rightarrow> (Some e, st)
         | Inr b \<Rightarrow>
             if b = 0x10 then
               (let st1 = st\<lparr>decoder_calls := decoder_calls st @ [buffer]\<rparr> in
                case ParseVbusPacket vbus cfg (clock (length (decoder_calls st))) buffer of
                  Inl e \<Rightarrow> (Some e, st1)
                | Inr r \<Rightarrow>
                    (None, st1\<lparr>parsed_datagram := Some r,
                                store_writes := store_writes st1 + 1\<rparr>))
             else (None, st))
      else (None, st))"

text \<open>The \<^verbatim>\<open>while True\<close> loop: it ends only by an exception.\<close>

function read_loop ::
  "('p, 'v, 'f) pyvbus \<Rightarrow> 'f config \<Rightarrow> (nat \<Rightarrow> string) \<Rightarrow> byte list \<Rightarrow> 'v state \<Rightarrow>
   error \<times> 'v state" where
  "read_loop vbus cfg clock stream st =
     (case readuntil 0xAA stream of
        Inl e \<Rightarrow> (e, st)
      | Inr (bytes_read, rest) \<Rightarrow>
          (case process_buffer vbus cfg clock st (frame_buffer bytes_read) of
             (Some e, st') \<Rightarrow> (e, st')
           | (None, st') \<Rightarrow> read_loop vbus cfg clock rest st'))"
  by pat_completeness auto
termination
proof -
  have shorter: "length rest < length stream"
    if "readuntil sep stream = Inr (chunk, rest)" for sep stream chunk rest
    using that by (induction stream arbitrary: chunk) (auto split: if_splits sum.splits)
  show ?thesis
    by (relation "measure (\<lambda>(vbus, cfg, clock, stream, st). length stream)")
       (auto dest: shorter)
qed

definition data_received ::
  "('p, 'v, 'f) pyvbus \<Rightarrow> 'f config \<Rightarrow> (nat \<Rightarrow> string) \<Rightarrow> byte list \<Rightarrow> 'v state \<Rightarrow>
   error \<times> 'v state" where
  "data_received vbus cfg clock stream st =
     (case readuntil 0xAA stream of
        Inl e \<Rightarrow> (e, st)
      | Inr (message_start, rest) \<Rightarrow> read_loop vbus cfg clock rest st)"

subsection \<open>The HTTP handlers\<close>







text \<open>\<^verbatim>\<open>main\<close> starts with \<^verbatim>\<open>parsed_datagram = None\<close>.\<close>

definition initial_state :: "'v state" where
  "initial_state = \<lparr>parsed_datagram = None, decoder_calls = [], store_writes = 0\<rparr>"

subsection \<open>The properties, as the specification words them\<close>

text \<open>
  The shape of a buffer that may reach the decoder: the delimiter first, the protocol
  version 1.0 at index 5.
\<close>

definition frame_shape :: "byte list \<Rightarrow> bool" where
  "frame_shape buffer \<longleftrightarrow> 6 \<le> length buffer \<and> buffer ! 0 = 0xAA \<and> buffer ! 5 = 0x10"

text \<open>
  Two readings with the same keys in the same order, and the same value under every key but
  \<^verbatim>\<open>timestamp\<close>; two decoder results that are such readings, or the same exception.
\<close>

definition same_entry :: "string \<times> 'v datum \<Rightarrow> string \<times> 'v datum \<Rightarrow> bool" where
  "same_entry p q \<longleftrightarrow> fst p = fst q \<and> (fst p \<noteq> ''timestamp'' \<longrightarrow> snd p = snd q)"

fun same_but_timestamp :: "error + 'v reading \<Rightarrow> error + 'v reading \<Rightarrow> bool" where
  "same_but_timestamp (Inr r1) (Inr r2) = list_all2 same_entry r1 r2"
| "same_but_timestamp (Inl e1) (Inl e2) = (e1 = e2)"
| "same_but_timestamp x y = False"






subsection \<open>Sample data\<close>

text \<open>The buffer that \<^verbatim>\<open>dummy_serial\<close> decodes at startup.\<close>

definition dummy_serial_buffer :: "byte list" where
  "dummy_serial_buffer =
     [
      0xAA, 0x10, 0x00, 0x78, 0x42, 0x10, 0x00, 0x01, 0x07, 0x1D, 0x39, 0x00, 0x7A,
      0x01, 0x01, 0x4A, 0x47, 0x02, 0x38, 0x22, 0x04, 0x58, 0x00, 0x00, 0x00, 0x00,
      0x00, 0x7F, 0x44, 0x06, 0x00, 0x00, 0x01, 0x34, 0x00, 0x00, 0x00, 0x00, 0x00,
      0x7F, 0x00, 0x00, 0x00, 0x03, 0x00, 0x7C, 0x4A, 0x00, 0x00, 0x00, 0x01, 0x34]"

text \<open>A sensor sub-section in which every key takes the default of the configspec.\<close>

definition default_sensor :: "'f \<Rightarrow> 'f sensor" where
  "default_sensor default_factor =
     \<lparr>sensor_description = ''description'', sensor_offset = 0, sensor_size = 1,
      sensor_factor = default_factor, sensor_position = 0, sensor_enabled = PyBool False,
      sensor_type = ''raw'', sensor_metrics = ''gague''\<rparr>"

text \<open>
  A small stand-in for the library, used only to run the program on examples: the packet
  is the buffer itself, every getter reads the one byte at the offset, values are whole
  numbers or tenths, and the factor is a whole number of tenths.
\<close>

datatype sample_value = Whole int | Tenths int

definition sample_byte :: "byte list \<Rightarrow> int \<Rightarrow> error + int" where
  "sample_byte p off =
     (if 0 \<le> off \<and> nat off < length p then Inr (uint (p ! nat off)) else Inl IndexError)"

definition sample_vbus :: "(byte list, sample_value, int) pyvbus" where
  "sample_vbus =
     \<lparr>VBUSPacket = (\<lambda>buffer. Inr buffer),
      GetRawValue = (\<lambda>p off sz. map_sum id Whole (sample_byte p off)),
      GetTemperatureValue = (\<lambda>p off sz f. map_sum id (\<lambda>n. Tenths (n * f)) (sample_byte p off)),
      GetBitValue =
        (\<lambda>p off pos. map_sum id (\<lambda>n. Whole (n div 2 ^ nat pos mod 2)) (sample_byte p off)),
      GetTimeValue = (\<lambda>p off sz. map_sum id Whole (sample_byte p off))\<rparr>"

fun str_nat :: "nat \<Rightarrow> string" where
  "str_nat n =
     (if n < 10 then [''0123456789'' ! n]
      else str_nat (n div 10) @ [''0123456789'' ! (n mod 10)])"

declare str_nat.simps [simp del]


definition sample_clock :: "nat \<Rightarrow> string" where
  "sample_clock n = ''2020-05-17T12:00:0'' @ str_nat (n mod 10) @ ''+01:00''"


definition sample_config :: "int config" where
  "sample_config =
     \<lparr>device_name = ''solar'',
      sensors =
        [(''packetLen'', (default_sensor 1)\<lparr>sensor_offset := 1, sensor_enabled := PyBool True\<rparr>),
         (''temp1'', (default_sensor 1)
            \<lparr>sensor_description := ''Collector Temperature'', sensor_offset := 9,
             sensor_enabled := PyBool True, sensor_type := ''temperature'',
             sensor_metrics := ''gauge''\<rparr>)]\<rparr>"

text \<open>A configuration whose only sensor is named like the fixed entry \<^verbatim>\<open>device\<close>.\<close>

definition clash_config :: "int config" where
  "clash_config =
     \<lparr>device_name = ''solar'',
      sensors =
        [(''device'', (default_sensor 1)\<lparr>sensor_offset := 1, sensor_enabled := PyBool True\<rparr>)]\<rparr>"


section \<open>Properties\<close>

subsection \<open>Dictionaries\<close>

lemma setitem_keys:
  "map fst (setitem k v d) = (if k \<in> set (map fst d) then map fst d else map fst d @ [k])"
  by (induction d) auto

lemma setitem_new: "k \<notin> set (map fst d) \<Longrightarrow> setitem k v d = d @ [(k, v)]"
  by (induction d) auto


lemma getitem_in: "dict_ok d \<Longrightarrow> (k, v) \<in> set d \<Longrightarrow> getitem d k = Inr v"
  by (simp add: getitem_def dict_ok_def)


subsection \<open>The frame reader\<close>

lemma frame_buffer_eq:
  "bytes_read \<noteq> [] \<Longrightarrow> frame_buffer bytes_read = 0xAA # butlast bytes_read"
  by (cases bytes_read rule: rev_cases) (simp_all add: frame_buffer_def)

lemma readuntil_chunk:
  "readuntil sep stream = Inr (chunk, rest) \<Longrightarrow>
     stream = chunk @ rest \<and> chunk \<noteq> [] \<and> last chunk = sep \<and> sep \<notin> set (butlast chunk)"
proof (induction stream arbitrary: chunk)
  case Nil
  then show ?case by simp
next
  case (Cons b bs)
  show ?case
  proof (cases "b = sep")
    case True
    with Cons.prems show ?thesis by auto
  next
    case False
    with Cons.prems obtain c where c: "readuntil sep bs = Inr (c, rest)" and chunk: "chunk = b # c"
      by (auto split: sum.splits)
    from Cons.IH [OF c] False chunk show ?thesis by auto
  qed
qed

text \<open>
  C3. Whatever one \<^verbatim>\<open>readuntil(b'\xaa')\<close> returns, the buffer built from it is the byte
  \<^verbatim>\<open>0xAA\<close> followed by the bytes read without their last one. The bytes read end with the
  delimiter and hold no other, so the delimiter that ends the read is not in the buffer, and
  the buffer is as long as the read.
\<close>

theorem frame_buffer_drops_delimiter:
  assumes "readuntil 0xAA stream = Inr (bytes_read, rest)"
  shows "frame_buffer bytes_read = 0xAA # butlast bytes_read
       \<and> bytes_read = butlast bytes_read @ [0xAA]
       \<and> 0xAA \<notin> set (butlast bytes_read)
       \<and> length (frame_buffer bytes_read) = length bytes_read"
proof -
  from readuntil_chunk [OF assms]
  have ne: "bytes_read \<noteq> []" and l: "last bytes_read = 0xAA"
    and nin: "0xAA \<notin> set (butlast bytes_read)" by simp_all
  from ne l have "bytes_read = butlast bytes_read @ [0xAA]"
    by (metis append_butlast_last_id)
  with ne nin show ?thesis by (simp add: frame_buffer_eq)
qed

theorem frame_buffer_drops_delimiter_witness:
  "readuntil 0xAA [0x10, 0x00, 0x78, 0xAA, 0x01] = Inr ([0x10, 0x00, 0x78, 0xAA], [0x01])
   \<and> frame_buffer [0x10, 0x00, 0x78, 0xAA] = [0xAA, 0x10, 0x00, 0x78]"
proof -
  have r: "readuntil 0xAA [0x10, 0x00, 0x78, 0xAA, 0x01] = Inr ([0x10, 0x00, 0x78, 0xAA], [0x01])"
    by simp
  from frame_buffer_drops_delimiter [OF r] r show ?thesis by simp
qed

lemma process_buffer_short:
  "length buffer < 5 \<Longrightarrow> process_buffer vbus cfg clock st buffer = (None, st)"
  by (simp add: process_buffer_def)

text \<open>
  C1. The claim is that every buffer shorter than 6 bytes is dropped without an error and
  the loop goes on. The guard of the source is \<^verbatim>\<open>len(buffer) >= 5\<close>, so a buffer of exactly
  5 bytes passes it and \<^verbatim>\<open>buffer[5]\<close> raises IndexError: four bytes followed by the delimiter
  end the reader loop, whatever follows on the line. The decoder is not called and the
  global is not written.
\<close>

theorem five_byte_buffer_raises:
  "frame_buffer [0x01, 0x02, 0x03, 0x04, 0xAA] = [0xAA, 0x01, 0x02, 0x03, 0x04]
   \<and> process_buffer vbus cfg clock st [0xAA, 0x01, 0x02, 0x03, 0x04] = (Some IndexError, st)
   \<and> read_loop vbus cfg clock ([0x01, 0x02, 0x03, 0x04, 0xAA] @ rest) st = (IndexError, st)"
  by (simp add: process_buffer_def frame_buffer_def byte_at_def)

text \<open>
  C2. A buffer of at least 6 bytes whose byte at index 5 is not \<^verbatim>\<open>0x10\<close> leaves the state as
  it was: no decoder call, no write. When the byte is \<^verbatim>\<open>0x10\<close> the decoder is called on
  this buffer, once; if it returns a reading, the reading becomes the value of
  \<^verbatim>\<open>parsed_datagram\<close> by exactly one write, and if it raises, the exception leaves the loop
  and nothing is written.
\<close>

theorem process_buffer_version_filter:
  assumes "6 \<le> length buffer"
  shows "process_buffer vbus cfg clock st buffer =
      (if buffer ! 5 = 0x10 then
         (case ParseVbusPacket vbus cfg (clock (length (decoder_calls st))) buffer of
            Inl e \<Rightarrow> (Some e, st\<lparr>decoder_calls := decoder_calls st @ [buffer]\<rparr>)
          | Inr r \<Rightarrow>
              (None, st\<lparr>decoder_calls := decoder_calls st @ [buffer],
                        parsed_datagram := Some r,
                        store_writes := store_writes st + 1\<rparr>))
       else (None, st))"
  using assms by (simp add: process_buffer_def byte_at_def Let_def split: sum.splits)

lemma sample_decode:
  "ParseVbusPacket sample_vbus sample_config ''2020-05-17T12:00:00+01:00'' dummy_serial_buffer =
     Inr [(''device'', Str ''solar''), (''timestamp'', Str ''2020-05-17T12:00:00+01:00''),
          (''packetLen'', Val (Whole 16)), (''temp1'', Val (Tenths 29))]"
  by (simp add: ParseVbusPacket_def sample_vbus_def sample_config_def default_sensor_def
      sensor_value_def getitem_def sample_byte_def dummy_serial_buffer_def)

lemma sample_clock_0: "sample_clock 0 = ''2020-05-17T12:00:00+01:00''"
  by (simp add: sample_clock_def str_nat.simps)

theorem process_buffer_version_filter_witness:
  "process_buffer sample_vbus sample_config sample_clock initial_state dummy_serial_buffer =
     (None,
      \<lparr>parsed_datagram =
         Some [(''device'', Str ''solar''), (''timestamp'', Str ''2020-05-17T12:00:00+01:00''),
               (''packetLen'', Val (Whole 16)), (''temp1'', Val (Tenths 29))],
       decoder_calls = [dummy_serial_buffer], store_writes = 1\<rparr>)
   \<and> process_buffer sample_vbus sample_config sample_clock initial_state
        [0xAA, 0x10, 0x00, 0x78, 0x42, 0x20, 0x00] = (None, initial_state)"
proof -
  have len: "6 \<le> length dummy_serial_buffer"
    by (simp add: dummy_serial_buffer_def)
  have v: "dummy_serial_buffer ! 5 = 0x10"
    by (simp add: dummy_serial_buffer_def)
  have len': "6 \<le> length [0xAA, 0x10, 0x00, 0x78, 0x42, 0x20, 0x00 :: byte]"
    by simp
  show ?thesis
    using process_buffer_version_filter [OF len, of sample_vbus sample_config sample_clock initial_state]
      process_buffer_version_filter [OF len', of sample_vbus sample_config sample_clock initial_state]
      v sample_decode
    by (simp add: initial_state_def sample_clock_0)
qed

lemma process_buffer_calls:
  assumes "process_buffer vbus cfg clock st buffer = (r, st')"
  shows "decoder_calls st' = decoder_calls st
       \<or> (decoder_calls st' = decoder_calls st @ [buffer] \<and> 6 \<le> length buffer \<and> buffer ! 5 = 0x10)"
  using assms
  by (auto simp: process_buffer_def byte_at_def Let_def split: if_splits sum.splits)

lemma read_loop_calls:
  "read_loop vbus cfg clock stream st = (e, st') \<Longrightarrow>
   \<forall>b \<in> set (decoder_calls st). frame_shape b \<Longrightarrow>
   \<forall>b \<in> set (decoder_calls st'). frame_shape b"
proof (induction vbus cfg clock stream st rule: read_loop.induct)
  case (1 vbus cfg clock stream st)
  show ?case
  proof (cases "readuntil 0xAA stream")
    case (Inl err)
    with "1.prems" show ?thesis by simp
  next
    case (Inr cr)
    obtain bytes_read rest where cr: "cr = (bytes_read, rest)" by (cases cr)
    obtain r st1 where pb: "process_buffer vbus cfg clock st (frame_buffer bytes_read) = (r, st1)"
      by (cases "process_buffer vbus cfg clock st (frame_buffer bytes_read)")
    from readuntil_chunk Inr cr have ne: "bytes_read \<noteq> []" by blast
    have st1: "\<forall>b \<in> set (decoder_calls st1). frame_shape b"
      using process_buffer_calls [OF pb] "1.prems"(2) ne
      by (auto simp: frame_shape_def frame_buffer_eq)
    show ?thesis
    proof (cases r)
      case None
      with "1.prems"(1) Inr cr pb have "read_loop vbus cfg clock rest st1 = (e, st')" by simp
      from "1.IH" [OF Inr cr [symmetric] pb [symmetric] None this st1] show ?thesis .
    next
      case (Some err)
      with "1.prems"(1) Inr cr pb have "st' = st1" by simp
      with st1 show ?thesis by simp
    qed
  qed
qed

text \<open>
  C10. However \<^verbatim>\<open>data_received\<close> ends on a line, every buffer it has handed to the decoder
  is at least 6 bytes long, starts with \<^verbatim>\<open>0xAA\<close> and has \<^verbatim>\<open>0x10\<close> at index 5.
\<close>

theorem decoder_only_sees_framed_buffers:
  assumes "data_received vbus cfg clock stream initial_state = (e, st)"
  shows "\<forall>buffer \<in> set (decoder_calls st).
           6 \<le> length buffer \<and> buffer ! 0 = 0xAA \<and> buffer ! 5 = 0x10"
proof -
  have "\<forall>b \<in> set (decoder_calls st). frame_shape b"
  proof (cases "readuntil 0xAA stream")
    case (Inl err)
    with assms show ?thesis by (auto simp: data_received_def initial_state_def)
  next
    case (Inr cr)
    with assms have "read_loop vbus cfg clock (snd cr) initial_state = (e, st)"
      by (simp add: data_received_def split: prod.splits)
    from read_loop_calls [OF this] show ?thesis by (simp add: initial_state_def)
  qed
  then show ?thesis by (simp add: frame_shape_def)
qed

theorem decoder_only_sees_framed_buffers_witness:
  "data_received sample_vbus sample_config sample_clock
     (0x55 # dummy_serial_buffer @ [0xAA, 0x01, 0x02, 0xAA, 0x03]) initial_state =
     (IncompleteReadError,
      \<lparr>parsed_datagram =
         Some [(''device'', Str ''solar''), (''timestamp'', Str ''2020-05-17T12:00:00+01:00''),
               (''packetLen'', Val (Whole 16)), (''temp1'', Val (Tenths 29))],
       decoder_calls = [dummy_serial_buffer], store_writes = 1\<rparr>)
   \<and> 6 \<le> length dummy_serial_buffer
   \<and> dummy_serial_buffer ! 0 = 0xAA \<and> dummy_serial_buffer ! 5 = 0x10"
proof -
  have run: "data_received sample_vbus sample_config sample_clock
     (0x55 # dummy_serial_buffer @ [0xAA, 0x01, 0x02, 0xAA, 0x03]) initial_state =
     (IncompleteReadError,
      \<lparr>parsed_datagram =
         Some [(''device'', Str ''solar''), (''timestamp'', Str ''2020-05-17T12:00:00+01:00''),
               (''packetLen'', Val (Whole 16)), (''temp1'', Val (Tenths 29))],
       decoder_calls = [dummy_serial_buffer], store_writes = 1\<rparr>)"
    by code_simp
  from decoder_only_sees_framed_buffers [OF run] run show ?thesis by simp
qed

subsection \<open>The frame decoder\<close>

text \<open>
  C4. A sensor whose type is none of \<^verbatim>\<open>raw\<close>, \<^verbatim>\<open>temperature\<close>, \<^verbatim>\<open>bit\<close> and \<^verbatim>\<open>time\<close> is
  decoded, on any packet, to what a sensor of type \<^verbatim>\<open>raw\<close> with the same offset and size
  is decoded to: the result of \<^verbatim>\<open>GetRawValue(offset, size)\<close>.
\<close>

theorem unknown_type_is_raw:
  assumes "sensor_type s \<notin> {''raw'', ''temperature'', ''bit'', ''time''}"
    and "sensor_type s' = ''raw''"
    and "sensor_offset s' = sensor_offset s" and "sensor_size s' = sensor_size s"
  shows "sensor_value vbus vbus_packet s = sensor_value vbus vbus_packet s'
       \<and> sensor_value vbus vbus_packet s =
           GetRawValue vbus vbus_packet (sensor_offset s) (sensor_size s)"
  using assms by (simp add: sensor_value_def)

theorem unknown_type_is_raw_witness:
  "sensor_value sample_vbus dummy_serial_buffer
     ((default_sensor 1)\<lparr>sensor_offset := 1, sensor_type := ''humidity''\<rparr>) = Inr (Whole 16)
   \<and> sensor_value sample_vbus dummy_serial_buffer
     ((default_sensor 1)\<lparr>sensor_offset := 1\<rparr>) = Inr (Whole 16)"
proof -
  have t: "sensor_type ((default_sensor (1::int))\<lparr>sensor_offset := 1, sensor_type := ''humidity''\<rparr>)
      \<notin> {''raw'', ''temperature'', ''bit'', ''time''}"
    by (simp add: default_sensor_def)
  have r: "sensor_type ((default_sensor (1::int))\<lparr>sensor_offset := 1\<rparr>) = ''raw''"
    by (simp add: default_sensor_def)
  have v: "GetRawValue sample_vbus dummy_serial_buffer 1 1 = Inr (Whole 16)"
    by (simp add: sample_vbus_def sample_byte_def dummy_serial_buffer_def)
  show ?thesis
    using unknown_type_is_raw [OF t r, of sample_vbus dummy_serial_buffer] v
    by (auto simp: default_sensor_def)
qed

lemma sensor_loop_result:
  assumes "\<forall>(k, s) \<in> set items. getitem sec k = Inr s"
    and "distinct (map fst items)"
    and "set (map fst items) \<inter> set (map fst parsed) = {}"
    and "map (\<lambda>(k, s). sensor_value vbus pkt s) items = map Inr vs"
  shows "sensor_loop vbus sec pkt (map fst items) parsed =
           Inr (parsed @ zip (map fst items) (map Val vs))"
  using assms
proof (induction items arbitrary: parsed vs)
  case Nil
  then show ?case by simp
next
  case (Cons item items)
  obtain k s where item: "item = (k, s)" by (cases item)
  from Cons.prems(4) item obtain v vs' where vs: "vs = v # vs'"
    and v: "sensor_value vbus pkt s = Inr v"
    and rest: "map (\<lambda>(k, s). sensor_value vbus pkt s) items = map Inr vs'"
    by (cases vs) auto
  from Cons.prems(1) item have get: "getitem sec k = Inr s" by simp
  from Cons.prems(3) item have new: "k \<notin> set (map fst parsed)" by auto
  have disj: "set (map fst items) \<inter> set (map fst (setitem k (Val v) parsed)) = {}"
    using Cons.prems(2,3) item by (auto simp: setitem_keys)
  have "sensor_loop vbus sec pkt (map fst items) (setitem k (Val v) parsed) =
          Inr (setitem k (Val v) parsed @ zip (map fst items) (map Val vs'))"
    using Cons.IH [OF _ _ disj rest] Cons.prems(1,2) by simp
  with item get v vs new show ?case by (simp add: setitem_new)
qed

text \<open>
  C5, as stated: for every schema the reading is \<^verbatim>\<open>device\<close>, \<^verbatim>\<open>timestamp\<close>, then one entry
  per sensor. It fails for a sensor named \<^verbatim>\<open>device\<close>: the assignment
  \<^verbatim>\<open>_parsed_datagram[sensor_name] = sensor_value\<close> overwrites the fixed entry in place, and the
  reading has two entries where the claim counts three.
\<close>

theorem reading_order_counterexample:
  "dict_ok (sensors clash_config)
   \<and> ParseVbusPacket sample_vbus clash_config ''2020-05-17T12:00:00+01:00'' dummy_serial_buffer =
       Inr [(''device'', Val (Whole 16)), (''timestamp'', Str ''2020-05-17T12:00:00+01:00'')]
   \<and> map fst [(''device'', Val (Whole 16)), (''timestamp'', Str ''2020-05-17T12:00:00+01:00'')]
       \<noteq> ''device'' # ''timestamp'' # map fst (sensors clash_config)"
  by (simp add: ParseVbusPacket_def sample_vbus_def clash_config_def default_sensor_def
      sensor_value_def getitem_def sample_byte_def dummy_serial_buffer_def dict_ok_def)

text \<open>
  C5, amended: when no sensor of the schema is named \<^verbatim>\<open>device\<close> or \<^verbatim>\<open>timestamp\<close>, and the
  library builds a packet from the buffer and returns a value for every sensor of the
  schema, the decoder returns the reading that holds \<^verbatim>\<open>device\<close> with the device name, then
  \<^verbatim>\<open>timestamp\<close> with the time of the call, then one entry per sensor, in the order of the
  schema, under the sensor's name and with the value the library returned for it.
\<close>

theorem reading_order:
  assumes "dict_ok (sensors cfg)"
    and "''device'' \<notin> set (map fst (sensors cfg))"
    and "''timestamp'' \<notin> set (map fst (sensors cfg))"
    and "VBUSPacket vbus buffer = Inr vbus_packet"
    and "map (\<lambda>(name, s). sensor_value vbus vbus_packet s) (sensors cfg) = map Inr values"
  shows "ParseVbusPacket vbus cfg now buffer =
           Inr ((''device'', Str (device_name cfg)) # (''timestamp'', Str now) #
                zip (map fst (sensors cfg)) (map Val values))"
proof -
  have "\<forall>(k, s) \<in> set (sensors cfg). getitem (sensors cfg) k = Inr s"
    using assms(1) by (auto intro: getitem_in)
  moreover have "distinct (map fst (sensors cfg))"
    using assms(1) by (simp add: dict_ok_def)
  moreover have "set (map fst (sensors cfg)) \<inter>
      set (map fst [(''device'', Str (device_name cfg)), (''timestamp'', Str now)]) = {}"
    using assms(2,3) by auto
  ultimately have "sensor_loop vbus (sensors cfg) vbus_packet (map fst (sensors cfg))
        [(''device'', Str (device_name cfg)), (''timestamp'', Str now)] =
      Inr ([(''device'', Str (device_name cfg)), (''timestamp'', Str now)] @
           zip (map fst (sensors cfg)) (map Val values))"
    using assms(5) by (rule sensor_loop_result)
  with assms(4) show ?thesis by (simp add: ParseVbusPacket_def)
qed

theorem reading_order_witness:
  "ParseVbusPacket sample_vbus sample_config ''2020-05-17T12:00:00+01:00'' dummy_serial_buffer =
     Inr [(''device'', Str ''solar''), (''timestamp'', Str ''2020-05-17T12:00:00+01:00''),
          (''packetLen'', Val (Whole 16)), (''temp1'', Val (Tenths 29))]"
proof -
  have ok: "dict_ok (sensors sample_config)"
    by (simp add: sample_config_def dict_ok_def)
  have d: "''device'' \<notin> set (map fst (sensors sample_config))"
    by (simp add: sample_config_def)
  have t: "''timestamp'' \<notin> set (map fst (sensors sample_config))"
    by (simp add: sample_config_def)
  have p: "VBUSPacket sample_vbus dummy_serial_buffer = Inr dummy_serial_buffer"
    by (simp add: sample_vbus_def)
  have vs: "map (\<lambda>(name, s). sensor_value sample_vbus dummy_serial_buffer s) (sensors sample_config) =
      map Inr [Whole 16, Tenths 29]"
    by (simp add: sample_vbus_def sample_config_def default_sensor_def sensor_value_def
        sample_byte_def dummy_serial_buffer_def)
  show ?thesis
    using reading_order [OF ok d t p vs, of "''2020-05-17T12:00:00+01:00''"]
    by (simp add: sample_config_def)
qed

lemma setitem_same_entry:
  "list_all2 same_entry d1 d2 \<Longrightarrow> list_all2 same_entry (setitem k v d1) (setitem k v d2)"
proof (induction d1 d2 rule: list_all2_induct)
  case Nil
  then show ?case by (simp add: same_entry_def)
next
  case (Cons p d1 q d2)
  then show ?case by (auto simp: same_entry_def)
qed

lemma sensor_loop_same:
  "list_all2 same_entry p1 p2 \<Longrightarrow>
   same_but_timestamp (sensor_loop vbus sec pkt keys p1) (sensor_loop vbus sec pkt keys p2)"
proof (induction keys arbitrary: p1 p2)
  case Nil
  then show ?case by simp
next
  case (Cons k keys)
  show ?case
  proof (cases "getitem sec k")
    case (Inl e)
    then show ?thesis by simp
  next
    case (Inr s)
    show ?thesis
    proof (cases "sensor_value vbus pkt s")
      case (Inl e)
      with Inr show ?thesis by simp
    next
      case v: (Inr v)
      from Cons.prems have "list_all2 same_entry (setitem k (Val v) p1) (setitem k (Val v) p2)"
        by (rule setitem_same_entry)
      from Cons.IH [OF this] Inr v show ?thesis by simp
    qed
  qed
qed

text \<open>
  C9. Two calls of the decoder with the same library, configuration and buffer, at two
  times, either raise the same exception or return readings with the same keys in the same
  order and the same value under every key but \<^verbatim>\<open>timestamp\<close>.
\<close>

theorem decode_deterministic_but_timestamp:
  "same_but_timestamp (ParseVbusPacket vbus cfg now1 buffer) (ParseVbusPacket vbus cfg now2 buffer)"
proof (cases "VBUSPacket vbus buffer")
  case (Inl e)
  then show ?thesis by (simp add: ParseVbusPacket_def)
next
  case (Inr pkt)
  have "list_all2 same_entry
          (setitem ''timestamp'' (Str now1) [(''device'', Str (device_name cfg))])
          (setitem ''timestamp'' (Str now2) [(''device'', Str (device_name cfg))])"
    by (simp add: same_entry_def)
  from sensor_loop_same [OF this] Inr show ?thesis by (simp add: ParseVbusPacket_def)
qed

theorem decode_deterministic_but_timestamp_witness:
  "list_all2 same_entry
     [(''device'', Str ''solar''), (''timestamp'', Str ''2020-05-17T12:00:00+01:00''),
      (''packetLen'', Val (Whole 16)), (''temp1'', Val (Tenths 29))]
     [(''device'', Str ''solar''), (''timestamp'', Str ''2020-05-17T12:00:01+01:00''),
      (''packetLen'', Val (Whole 16)), (''temp1'', Val (Tenths 29))]"
proof -
  have a: "ParseVbusPacket sample_vbus sample_config ''2020-05-17T12:00:00+01:00'' dummy_serial_buffer =
     Inr [(''device'', Str ''solar''), (''timestamp'', Str ''2020-05-17T12:00:00+01:00''),
          (''packetLen'', Val (Whole 16)), (''temp1'', Val (Tenths 29))]"
    by (rule sample_decode)
  have b: "ParseVbusPacket sample_vbus sample_config ''2020-05-17T12:00:01+01:00'' dummy_serial_buffer =
     Inr [(''device'', Str ''solar''), (''timestamp'', Str ''2020-05-17T12:00:01+01:00''),
          (''packetLen'', Val (Whole 16)), (''temp1'', Val (Tenths 29))]"
    by (simp add: ParseVbusPacket_def sample_vbus_def sample_config_def default_sensor_def
        sensor_value_def getitem_def sample_byte_def dummy_serial_buffer_def)
  show ?thesis
    using decode_deterministic_but_timestamp [of sample_vbus sample_config
        "''2020-05-17T12:00:00+01:00''" dummy_serial_buffer "''2020-05-17T12:00:01+01:00''"]
    unfolding a b by simp
qed

subsection \<open>The configuration\<close>




subsection \<open>What a reading holds\<close>




subsection \<open>The HTTP handlers\<close>











end
